theory Spec2Isabelle
  imports Main "HOL-Library.Word" "HOL-Library.Signed_Division" "HOL-Library.Multiset"
begin

section \<open>Machine integers, faults and console output\<close>

text \<open>
  The program lambda.cpp computes with \<open>int\<close>, taken here as the 32-bit two's complement
  integer of the usual targets. The carrier is \<open>32 word\<close>, read through \<open>sint\<close>. The C++
  operations on \<open>int\<close> that have undefined behaviour (a zero divisor, a result that is not
  representable) return a fault instead of a value, so that every such place of the source
  is a branch of the model.
\<close>

type_synonym cint = "32 word"

datatype fault = DivisionByZero | SignedOverflow | Unbound

definition INT_MIN :: cint where
  "INT_MIN = word_of_int (- 2147483648)"

definition INT_MAX :: cint where
  "INT_MAX = word_of_int 2147483647"

definition and_then :: "fault + 'a \<Rightarrow> ('a \<Rightarrow> fault + 'b) \<Rightarrow> fault + 'b" where
  "and_then r f = (case r of Inl e \<Rightarrow> Inl e | Inr a \<Rightarrow> f a)"

text \<open>
  \<open>x % n\<close> on \<open>int\<close>: undefined for \<open>n = 0\<close>, and undefined when the quotient \<open>x / n\<close> is
  not representable (\<open>INT_MIN % -1\<close>); otherwise the remainder of the division truncated
  towards zero, which has the sign of \<open>x\<close>.
\<close>

definition c_rem :: "cint \<Rightarrow> cint \<Rightarrow> fault + cint" where
  "c_rem x n =
     (if n = 0 then Inl DivisionByZero
      else if x = INT_MIN \<and> n = - 1 then Inl SignedOverflow
      else Inr (word_of_int (sint x smod sint n)))"

text \<open>Unary minus on \<open>int\<close>: undefined for \<open>INT_MIN\<close>.\<close>

definition c_neg :: "cint \<Rightarrow> fault + cint" where
  "c_neg x = (if x = INT_MIN then Inl SignedOverflow else Inr (- x))"

text \<open>\<open>x + 1\<close> as computed by \<open>x++\<close> and \<open>++x\<close>: undefined for \<open>INT_MAX\<close>.\<close>

definition c_succ :: "cint \<Rightarrow> fault + cint" where
  "c_succ x = (if x = INT_MAX then Inl SignedOverflow else Inr (x + 1))"

definition c_less :: "cint \<Rightarrow> cint \<Rightarrow> bool" where
  "c_less x y = (sint x < sint y)"

text \<open>The decimal text that \<open>operator<<\<close> writes for an \<open>int\<close>.\<close>

definition digit_char :: "nat \<Rightarrow> char" where
  "digit_char d =
     (if d = 0 then CHR ''0'' else if d = 1 then CHR ''1'' else if d = 2 then CHR ''2''
      else if d = 3 then CHR ''3'' else if d = 4 then CHR ''4'' else if d = 5 then CHR ''5''
      else if d = 6 then CHR ''6'' else if d = 7 then CHR ''7'' else if d = 8 then CHR ''8''
      else CHR ''9'')"

fun show_nat :: "nat \<Rightarrow> string" where
  "show_nat k = (if k < 10 then [digit_char k] else show_nat (k div 10) @ [digit_char (k mod 10)])"

declare show_nat.simps [simp del]

definition show_int :: "int \<Rightarrow> string" where
  "show_int i = (if i < 0 then CHR ''-'' # show_nat (nat (- i)) else show_nat (nat i))"

definition show_cint :: "cint \<Rightarrow> string" where
  "show_cint x = show_int (sint x)"

definition endl :: string where
  "endl = [CHR 0x0A]"

section \<open>The state of \<open>main\<close>\<close>

text \<open>
  The \<open>int\<close> locals of \<open>main\<close> live in a store indexed by their names, so that a closure
  capturing by reference holds the name (the address) and a closure capturing by value
  holds a value. A local is absent from the store until its declaration is executed. The
  array \<open>ar\<close>, which \<open>sort\<close> rewrites in place, and the text written to \<open>cout\<close> complete
  the state.
\<close>

datatype var = N | Number | Number2 | Number3 | Target | Count

record state =
  vars :: "var \<Rightarrow> cint option"
  ar :: "cint list"
  cout :: string

definition init_state :: state where
  "init_state = \<lparr>vars = (\<lambda>_. None), ar = [], cout = []\<rparr>"

definition assign :: "var \<Rightarrow> cint \<Rightarrow> state \<Rightarrow> state" where
  "assign x v st = st\<lparr>vars := (vars st)(x := Some v)\<rparr>"

definition rd :: "var \<Rightarrow> state \<Rightarrow> fault + cint" where
  "rd x st = (case vars st x of None \<Rightarrow> Inl Unbound | Some v \<Rightarrow> Inr v)"

definition put :: "string \<Rightarrow> state \<Rightarrow> state" where
  "put s st = st\<lparr>cout := cout st @ s\<rparr>"

definition put_int :: "cint \<Rightarrow> state \<Rightarrow> state" where
  "put_int x st = put (show_cint x) st"

section \<open>The library algorithms the program calls\<close>

text \<open>
  \<open>std::find_if (first, last, pred)\<close>: the position of the first element for which \<open>pred\<close>
  holds, \<open>last\<close> (here the length of the sequence) when there is none.
\<close>

fun find_if :: "'a list \<Rightarrow> ('a \<Rightarrow> fault + bool) \<Rightarrow> fault + nat" where
  "find_if [] p = Inr 0"
| "find_if (x # xs) p =
     (case p x of
        Inl e \<Rightarrow> Inl e
      | Inr True \<Rightarrow> Inr 0
      | Inr False \<Rightarrow> (case find_if xs p of Inl e \<Rightarrow> Inl e | Inr i \<Rightarrow> Inr (Suc i)))"

text \<open>\<open>std::for_each (first, last, f)\<close>: \<open>f\<close> applied to every element, first to last.\<close>

fun for_each :: "'a list \<Rightarrow> ('a \<Rightarrow> 's \<Rightarrow> fault + 's) \<Rightarrow> 's \<Rightarrow> fault + 's" where
  "for_each [] f s = Inr s"
| "for_each (x # xs) f s = (case f x s of Inl e \<Rightarrow> Inl e | Inr s' \<Rightarrow> for_each xs f s')"

section \<open>Predicate search (lines 73-79 and 91-105)\<close>

text \<open>The function object \<open>can_divide\<close>: the member \<open>n_\<close> (here \<open>n_member\<close>) and the call operator.\<close>

record can_divide =
  n_member :: cint

definition can_divide_call :: "can_divide \<Rightarrow> cint \<Rightarrow> fault + bool" where
  "can_divide_call c x = and_then (c_rem x (n_member c)) (\<lambda>r. Inr (r = 0))"

text \<open>The closure \<open>[n](int x){return x % n == 0;}\<close>, with the copy of \<open>n\<close> it captured.\<close>

definition divides_lambda :: "cint \<Rightarrow> cint \<Rightarrow> fault + bool" where
  "divides_lambda n x = and_then (c_rem x n) (\<lambda>r. Inr (r = 0))"

definition ar_init :: "cint list" where
  "ar_init = [9, 7, 5, 3, 1, - 2, - 4, - 6, - 8, 0]"

definition search_demo :: "state \<Rightarrow> fault + state" where
  "search_demo st0 =
     (let st1 = assign N 4 (st0\<lparr>ar := ar_init\<rparr>) in
      and_then (rd N st1) (\<lambda>n.
      and_then (find_if (ar st1) (divides_lambda n)) (\<lambda>found.
        if found \<noteq> length (ar st1)
        then and_then (rd N st1) (\<lambda>n'.
               Inr (put endl (put_int n' (put '' can be divided by '' (put_int (ar st1 ! found) st1)))))
        else Inr st1)))"

section \<open>Comparator sort (lines 82-87 and 116-122)\<close>

text \<open>
  The body shared by \<open>abs_less::operator()\<close> and the comparison closure: each operand is
  replaced by \<open>x > 0 ? x : -x\<close>, where the negation is undefined for \<open>INT_MIN\<close>.
\<close>

definition abs_key :: "cint \<Rightarrow> fault + cint" where
  "abs_key x = (if c_less 0 x then Inr x else c_neg x)"

definition abs_less :: "cint \<Rightarrow> cint \<Rightarrow> fault + bool" where
  "abs_less x y = and_then (abs_key x) (\<lambda>a. and_then (abs_key y) (\<lambda>b. Inr (c_less a b)))"

definition abs_less_lambda :: "cint \<Rightarrow> cint \<Rightarrow> fault + bool" where
  "abs_less_lambda x y =
     and_then (if c_less 0 x then Inr x else c_neg x) (\<lambda>a.
     and_then (if c_less 0 y then Inr y else c_neg y) (\<lambda>b. Inr (c_less a b)))"

text \<open>
  \<open>std::sort\<close> is library code. The C++ standard fixes its contract only: the range is
  permuted, and afterwards no element compares less than an element before it.
\<close>

definition std_sort_post :: "('a \<Rightarrow> 'a \<Rightarrow> fault + bool) \<Rightarrow> 'a list \<Rightarrow> 'a list \<Rightarrow> bool" where
  "std_sort_post cmp xs ys = (mset ys = mset xs \<and> sorted_wrt (\<lambda>a b. cmp b a = Inr False) ys)"

text \<open>
  One algorithm that meets the contract, an insertion sort, stands for the library's in
  the executable model of \<open>main\<close>.
\<close>

fun insert_by :: "('a \<Rightarrow> 'a \<Rightarrow> fault + bool) \<Rightarrow> 'a \<Rightarrow> 'a list \<Rightarrow> fault + 'a list" where
  "insert_by cmp x [] = Inr [x]"
| "insert_by cmp x (y # ys) =
     (case cmp x y of
        Inl e \<Rightarrow> Inl e
      | Inr True \<Rightarrow> Inr (x # y # ys)
      | Inr False \<Rightarrow> (case insert_by cmp x ys of Inl e \<Rightarrow> Inl e | Inr zs \<Rightarrow> Inr (y # zs)))"

fun std_sort :: "('a \<Rightarrow> 'a \<Rightarrow> fault + bool) \<Rightarrow> 'a list \<Rightarrow> fault + 'a list" where
  "std_sort cmp [] = Inr []"
| "std_sort cmp (x # xs) = and_then (std_sort cmp xs) (insert_by cmp x)"

definition print_elem :: "cint \<Rightarrow> state \<Rightarrow> fault + state" where
  "print_elem x st = Inr (put '' '' (put_int x st))"

definition sort_demo :: "state \<Rightarrow> fault + state" where
  "sort_demo st0 =
     and_then (std_sort abs_less_lambda (ar st0)) (\<lambda>ys.
     and_then (for_each ys print_elem (st0\<lparr>ar := ys\<rparr>)) (\<lambda>st1.
       Inr (put endl st1)))"

section \<open>Closures stored in variables (lines 130-137)\<close>

definition println :: "string \<Rightarrow> state \<Rightarrow> state" where
  "println str st = put endl (put str st)"

definition polite :: "string \<Rightarrow> string" where
  "polite str = str @ '' SIR ''"

definition stored_closure_demo :: "state \<Rightarrow> state" where
  "stored_closure_demo st0 =
     (let msg = polite ''Ben'';
          st1 = println msg st0
      in println (polite ''Bingshiue'') st1)"

section \<open>Capture by value (lines 146-151)\<close>

text \<open>The closure \<open>capt_print\<close> holds its own copy of \<open>number\<close>, made when it is built.\<close>

record capt_print =
  cp_number :: cint

definition make_capt_print :: "state \<Rightarrow> fault + capt_print" where
  "make_capt_print st = and_then (rd Number st) (\<lambda>v. Inr \<lparr>cp_number = v\<rparr>)"

definition capt_print_call :: "capt_print \<Rightarrow> state \<Rightarrow> state" where
  "capt_print_call c st = put endl (put '' Captured '' (put_int (cp_number c) st))"

text \<open>
  The block of \<open>main\<close>, with the assignment that follows the construction of the closure
  (\<open>n = 456\<close> in the source) as the parameters \<open>x\<close> and \<open>w\<close>.
\<close>

definition value_capture_demo :: "var \<Rightarrow> cint \<Rightarrow> state \<Rightarrow> fault + state" where
  "value_capture_demo x w st0 =
     (let st1 = assign Number 123 st0 in
      and_then (make_capt_print st1) (\<lambda>c.
        let st2 = assign x w st1;
            st3 = capt_print_call c st2
        in Inr (put endl st3)))"

section \<open>Mutable capture by value (lines 158-165)\<close>

text \<open>
  \<open>capt_print2\<close> captures \<open>number\<close> (not \<open>number2\<close>) by value and is \<open>mutable\<close>: a call
  writes its copy, then increments the copy. The call returns the updated closure.
\<close>

record capt_print2 =
  cp2_number :: cint

definition make_capt_print2 :: "state \<Rightarrow> fault + capt_print2" where
  "make_capt_print2 st = and_then (rd Number st) (\<lambda>v. Inr \<lparr>cp2_number = v\<rparr>)"

definition capt_print2_call :: "capt_print2 \<times> state \<Rightarrow> fault + capt_print2 \<times> state" where
  "capt_print2_call cs =
     (case cs of (c, st) \<Rightarrow>
        and_then (c_succ (cp2_number c)) (\<lambda>v'.
          Inr (c\<lparr>cp2_number := v'\<rparr>, put endl (put '' Captured '' (put_int (cp2_number c) st)))))"

text \<open>The block of \<open>main\<close>, with the initialiser of \<open>number2\<close> (123 in the source) as \<open>v\<close>.\<close>

definition mutable_capture_demo :: "cint \<Rightarrow> state \<Rightarrow> fault + state" where
  "mutable_capture_demo v st0 =
     (let st1 = assign Number2 v st0 in
      and_then (make_capt_print2 st1) (\<lambda>c0.
      and_then (capt_print2_call (c0, st1)) (\<lambda>cs1.
      and_then (capt_print2_call cs1) (\<lambda>cs2.
      and_then (capt_print2_call cs2) (\<lambda>cs3.
      and_then (rd Number2 (snd cs3)) (\<lambda>n2.
        Inr (put endl (put endl (put_int n2 (put ''number2 = '' (snd cs3)))))))))))"

section \<open>Capture by reference (lines 174-186)\<close>

text \<open>\<open>capt_print3\<close> holds a reference to \<open>number3\<close>: the name of the variable in the store.\<close>

record capt_print3 =
  cp3_number3 :: var

definition make_capt_print3 :: capt_print3 where
  "make_capt_print3 = \<lparr>cp3_number3 = Number3\<rparr>"

definition capt_print3_call :: "capt_print3 \<Rightarrow> state \<Rightarrow> fault + state" where
  "capt_print3_call c st =
     and_then (rd (cp3_number3 c) st) (\<lambda>v.
     and_then (c_succ v) (\<lambda>v'.
       Inr (put ('' Captured '' @ endl) (put_int v (assign (cp3_number3 c) v' st)))))"

definition report_number3 :: "state \<Rightarrow> fault + state" where
  "report_number3 st =
     and_then (rd Number3 st) (\<lambda>v. Inr (put endl (put_int v (put ''number3 = '' st))))"

definition reference_capture_demo :: "state \<Rightarrow> fault + state" where
  "reference_capture_demo st0 =
     (let st1 = assign Number3 123 st0;
          c = make_capt_print3 in
      and_then (capt_print3_call c st1) (\<lambda>st2.
      and_then (capt_print3_call c st2) (\<lambda>st3.
      and_then (capt_print3_call c st3) (\<lambda>st4.
      and_then (report_number3 st4) (\<lambda>st5.
      and_then (capt_print3_call c (assign Number3 456 st5)) (\<lambda>st6.
      and_then (report_number3 st6) (\<lambda>st7.
        Inr (put endl st7))))))))"

section \<open>Capture of several variables (lines 189-199)\<close>

text \<open>\<open>count_less\<close> holds a reference to \<open>count\<close> and a copy of \<open>target\<close>.\<close>

record count_less =
  cl_count :: var
  cl_target :: cint

definition make_count_less :: "state \<Rightarrow> fault + count_less" where
  "make_count_less st = and_then (rd Target st) (\<lambda>t. Inr \<lparr>cl_count = Count, cl_target = t\<rparr>)"

definition count_less_call :: "count_less \<Rightarrow> cint \<Rightarrow> state \<Rightarrow> fault + state" where
  "count_less_call c x st =
     (if c_less x (cl_target c)
      then and_then (rd (cl_count c) st) (\<lambda>v.
           and_then (c_succ v) (\<lambda>v'. Inr (assign (cl_count c) v' st)))
      else Inr st)"

definition data_init :: "cint list" where
  "data_init = [1, 3, 5, 7, 2, 4, 6, 8]"

definition count_demo :: "state \<Rightarrow> fault + state" where
  "count_demo st0 =
     (let st1 = assign Count 0 (assign Target 5 st0) in
      and_then (make_count_less st1) (\<lambda>c.
        let st2 = assign Count 0 st1 in
        and_then (for_each data_init (count_less_call c) st2) (\<lambda>st3.
        and_then (rd Count st3) (\<lambda>cnt.
        and_then (rd Target st3) (\<lambda>tgt.
          Inr (put endl (put endl (put_int tgt
                 (put ''Less Than '' (put '' Numbers '' (put_int cnt st3)))))))))))"

section \<open>Capture of \<open>this\<close> (lines 51-60 and 208-212)\<close>

text \<open>
  The class template \<open>numbers<T>\<close>. What \<open>operator<<\<close> writes for a \<open>T\<close> is the
  parameter \<open>shw\<close>. The closure in \<open>print_all\<close> captures \<open>this\<close> and calls \<open>print_one\<close>
  on it.
\<close>

record 'a numbers =
  data :: "'a list"

definition numbers_new :: "'a numbers" where
  "numbers_new = \<lparr>data = []\<rparr>"

definition print_one :: "('a \<Rightarrow> string) \<Rightarrow> 'a numbers \<Rightarrow> 'a \<Rightarrow> state \<Rightarrow> state" where
  "print_one shw this x st = put '' '' (put (shw x) st)"

definition add :: "'a \<Rightarrow> 'a numbers \<Rightarrow> 'a numbers" where
  "add x this = this\<lparr>data := data this @ [x]\<rparr>"

definition print_all_lambda :: "('a \<Rightarrow> string) \<Rightarrow> 'a numbers \<Rightarrow> 'a \<Rightarrow> state \<Rightarrow> fault + state" where
  "print_all_lambda shw this x st = Inr (print_one shw this x st)"

definition print_all :: "('a \<Rightarrow> string) \<Rightarrow> 'a numbers \<Rightarrow> state \<Rightarrow> fault + state" where
  "print_all shw this st = for_each (data this) (print_all_lambda shw this) st"

definition container_demo :: "state \<Rightarrow> fault + state" where
  "container_demo st0 =
     (let ints = add 3 (add 2 (add 1 numbers_new)) in
      and_then (print_all show_cint ints st0) (\<lambda>st1. Inr (put endl st1)))"

section \<open>The program\<close>

definition main :: "fault + state" where
  "main =
     and_then (search_demo init_state) (\<lambda>s1.
     and_then (sort_demo s1) (\<lambda>s2.
     and_then (value_capture_demo N 456 (stored_closure_demo s2)) (\<lambda>s3.
     and_then (mutable_capture_demo 123 s3) (\<lambda>s4.
     and_then (reference_capture_demo s4) (\<lambda>s5.
     and_then (count_demo s5) (\<lambda>s6.
       container_demo s6))))))"

section \<open>Repeated invocation\<close>

text \<open>
  \<open>repeat k f s\<close>: \<open>k\<close> successive invocations of \<open>f\<close>, each on the state the one before
  left; the first fault ends the run. It states what holds after any number of calls of a
  closure.
\<close>

fun repeat :: "nat \<Rightarrow> ('s \<Rightarrow> fault + 's) \<Rightarrow> 's \<Rightarrow> fault + 's" where
  "repeat 0 f s = Inr s"
| "repeat (Suc k) f s = and_then (f s) (repeat k f)"

text \<open>The array of \<open>main\<close> by non-decreasing absolute value.\<close>

abbreviation ar_sorted :: "cint list" where
  "ar_sorted \<equiv> [0, 1, - 2, 3, - 4, 5, - 6, 7, - 8, 9]"

section \<open>Evaluation rules\<close>

lemmas int_ops = c_rem_def c_neg_def c_succ_def c_less_def INT_MIN_def INT_MAX_def and_then_def
  signed_modulo_int_def

lemmas out_ops = put_def put_int_def show_cint_def show_int_def show_nat.simps digit_char_def

lemmas store_ops = assign_def rd_def

lemmas out_text = show_cint_def show_int_def show_nat.simps digit_char_def

section \<open>Predicate search: properties\<close>

text \<open>
  \<open>find_if\<close> returns the first position whose element satisfies the predicate: the
  predicate is false on every element before it, and true at it unless the position is
  \<open>last\<close>.
\<close>

lemma find_if_first:
  "find_if xs p = Inr i \<Longrightarrow>
     i \<le> length xs \<and> list_all (\<lambda>x. p x = Inr False) (take i xs)
     \<and> (i < length xs \<longrightarrow> p (xs ! i) = Inr True)"
proof (induction xs arbitrary: i)
  case Nil
  then show ?case by simp
next
  case (Cons x xs)
  show ?case
  proof (cases "p x")
    case (Inl e)
    with Cons.prems show ?thesis by simp
  next
    case (Inr b)
    show ?thesis
    proof (cases b)
      case True
      with Inr Cons.prems show ?thesis by simp
    next
      case False
      with Inr Cons.prems obtain j where j: "find_if xs p = Inr j" "i = Suc j"
        by (auto split: sum.splits)
      from Cons.IH [OF j(1)] j(2) Inr False show ?thesis by simp
    qed
  qed
qed

lemma length_ar_init: "length ar_init = 10"
  by (simp add: ar_init_def)

text \<open>
  C1. Over \<open>{9,7,5,3,1,-2,-4,-6,-8,0}\<close> the search with the captured divisor 4 stops at
  position 6, the element \<open>-4\<close>, whose remainder modulo 4 is 0 while no element before it
  is divisible by 4, and the block writes the line \<open>-4 can be divided by 4\<close>; with the
  captured divisor 1 the search stops at position 0, the element 9.
\<close>

theorem search_finds_first_divisible:
  "find_if ar_init (divides_lambda 4) = Inr 6 \<and> ar_init ! 6 = - 4
   \<and> c_rem (ar_init ! 6) 4 = Inr 0
   \<and> list_all (\<lambda>x. divides_lambda 4 x = Inr False) (take 6 ar_init)
   \<and> map_sum id cout (search_demo st) = Inr (cout st @ ''-4 can be divided by 4'' @ endl)
   \<and> find_if ar_init (divides_lambda 1) = Inr 0 \<and> ar_init ! 0 = 9"
proof -
  have a: "find_if ar_init (divides_lambda 4) = Inr 6"
    by (simp add: ar_init_def divides_lambda_def int_ops)
  have b: "ar_init ! 6 = - 4"
    by (simp add: ar_init_def)
  have c: "c_rem (ar_init ! 6) 4 = Inr 0"
    by (simp add: b int_ops)
  have d: "list_all (\<lambda>x. divides_lambda 4 x = Inr False) (take 6 ar_init)"
    by (simp add: ar_init_def divides_lambda_def int_ops)
  have e: "map_sum id cout (search_demo st) = Inr (cout st @ ''-4 can be divided by 4'' @ endl)"
    by (simp add: search_demo_def a b length_ar_init store_ops Let_def and_then_def out_ops)
  have f: "find_if ar_init (divides_lambda 1) = Inr 0"
    by (simp add: ar_init_def divides_lambda_def int_ops)
  have g: "ar_init ! 0 = 9"
    by (simp add: ar_init_def)
  from a b c d e f g show ?thesis by simp
qed

text \<open>The truncated remainder is smaller in magnitude than the divisor.\<close>

lemma smod_abs_less: "l \<noteq> 0 \<Longrightarrow> \<bar>k smod l\<bar> < \<bar>l\<bar>" for k l :: int
  by (simp add: signed_modulo_int_def abs_mult abs_sgn_eq)

lemma rem_word_eq_0_iff:
  fixes x n :: cint
  assumes "n \<noteq> 0"
  shows "(word_of_int (sint x smod sint n) :: cint) = 0 \<longleftrightarrow> sint x smod sint n = 0"
proof -
  have n0: "sint n \<noteq> 0"
    using assms by (simp add: signed_eq_0_iff)
  have "\<bar>sint n\<bar> \<le> 2 ^ 31"
    using sint_ge [of n] sint_lt [of n] by simp
  with smod_abs_less [OF n0, of "sint x"] have lt: "\<bar>sint x smod sint n\<bar> < 2 ^ 32"
    by simp
  show ?thesis
  proof
    assume "(word_of_int (sint x smod sint n) :: cint) = 0"
    then have "2 ^ 32 dvd sint x smod sint n"
      by (simp add: word_of_int_eq_0_iff)
    with lt show "sint x smod sint n = 0"
      using zdvd_not_zless [of "\<bar>sint x smod sint n\<bar>" "2 ^ 32"]
      by (cases "sint x smod sint n = 0") auto
  qed simp
qed

text \<open>
  C8, as amended. The divisibility test \<open>x % n == 0\<close>, in the closure and in the function
  object \<open>can_divide\<close>, is defined whenever the captured divisor \<open>n\<close> is not zero and the
  pair is not \<open>x = INT_MIN\<close>, \<open>n = -1\<close>: it then answers whether the truncated remainder of
  \<open>x\<close> by \<open>n\<close> is 0, and no fault is reachable. With the divisor 0 it is a division by
  zero for every \<open>x\<close>, which nothing in the program catches.
\<close>

theorem divisibility_defined:
  assumes "n \<noteq> 0" and "\<not> (x = INT_MIN \<and> n = - 1)"
  shows "divides_lambda n x = Inr (sint x smod sint n = 0)
    \<and> can_divide_call \<lparr>n_member = n\<rparr> x = Inr (sint x smod sint n = 0)
    \<and> divides_lambda 0 x = Inl DivisionByZero
    \<and> can_divide_call \<lparr>n_member = 0\<rparr> x = Inl DivisionByZero"
  using assms rem_word_eq_0_iff [OF assms(1), of x]
  by (auto simp: divides_lambda_def can_divide_call_def c_rem_def and_then_def)

theorem divisibility_defined_witness:
  "(4 :: cint) \<noteq> 0 \<and> \<not> ((- 4 :: cint) = INT_MIN \<and> (4 :: cint) = - 1)
   \<and> divides_lambda 4 (- 4) = Inr True \<and> can_divide_call \<lparr>n_member = 4\<rparr> (- 4) = Inr True
   \<and> divides_lambda 0 (- 4) = Inl DivisionByZero"
  using divisibility_defined [of 4 "- 4"] by (simp add: INT_MIN_def signed_modulo_int_def)

text \<open>
  C8 as stated fails: the divisor \<open>-1\<close> is not zero, yet \<open>INT_MIN % -1\<close> is undefined,
  its quotient not being representable.
\<close>

theorem divisibility_overflow_counterexample:
  "(- 1 :: cint) \<noteq> 0 \<and> divides_lambda (- 1) INT_MIN = Inl SignedOverflow
   \<and> can_divide_call \<lparr>n_member = - 1\<rparr> INT_MIN = Inl SignedOverflow"
  by (simp add: divides_lambda_def can_divide_call_def c_rem_def and_then_def)

section \<open>Arithmetic on \<open>int\<close> without overflow\<close>

lemma sint_INT_MAX: "sint INT_MAX = 2147483647"
  by (simp add: INT_MAX_def)

lemma sint_INT_MIN: "sint INT_MIN = - 2147483648"
  by (simp add: INT_MIN_def)

lemma sint_succ:
  fixes x :: cint
  assumes "x \<noteq> INT_MAX"
  shows "sint (x + 1) = sint x + 1"
proof -
  from assms have "sint x \<noteq> 2147483647"
    using word_eq_iff_signed [of x INT_MAX, where ?'a = int] by (simp add: sint_INT_MAX)
  with sint_lt [of x] have "sint x + 1 < 2 ^ 31" by simp
  moreover from sint_ge [of x] have "- (2 ^ 31) \<le> sint x + 1" by simp
  ultimately show ?thesis
    by (simp add: sint_word_ariths signed_take_bit_int_eq_self)
qed

lemma c_succ_Inr: "sint x < 2147483647 \<Longrightarrow> c_succ x = Inr (x + 1)"
  by (auto simp: c_succ_def sint_INT_MAX)

section \<open>Mutable capture by value: properties\<close>

text \<open>A call of \<open>capt_print2\<close> writes to \<open>cout\<close> and to its own copy only.\<close>

lemma capt_print2_call_frame:
  "capt_print2_call (c, s) = Inr (c', s') \<Longrightarrow> vars s' = vars s \<and> ar s' = ar s"
  by (auto simp: capt_print2_call_def and_then_def put_def put_int_def split: sum.splits)

lemma repeat_capt_print2_frame:
  "repeat k capt_print2_call (c, s) = Inr (c', s') \<Longrightarrow> vars s' = vars s \<and> ar s' = ar s"
proof (induction k arbitrary: c s)
  case 0
  then show ?case by simp
next
  case (Suc k)
  from Suc.prems obtain c1 s1 where
    step: "capt_print2_call (c, s) = Inr (c1, s1)" and
    rest: "repeat k capt_print2_call (c1, s1) = Inr (c', s')"
    by (auto simp: and_then_def split: sum.splits)
  from Suc.IH [OF rest] capt_print2_call_frame [OF step] show ?case by simp
qed

lemma repeat_capt_print2_total:
  "sint (cp2_number c) + int k \<le> 2147483647 \<Longrightarrow>
     \<exists>c' s'. repeat k capt_print2_call (c, s) = Inr (c', s') \<and> cp2_number c' = cp2_number c + of_nat k"
proof (induction k arbitrary: c s)
  case 0
  then show ?case by simp
next
  case (Suc k)
  from Suc.prems have lt: "sint (cp2_number c) < 2147483647" by simp
  then have ne: "cp2_number c \<noteq> INT_MAX" by (auto simp: sint_INT_MAX)
  let ?c1 = "c\<lparr>cp2_number := cp2_number c + 1\<rparr>"
  let ?s1 = "put endl (put '' Captured '' (put_int (cp2_number c) s))"
  have step: "capt_print2_call (c, s) = Inr (?c1, ?s1)"
    by (simp add: capt_print2_call_def c_succ_Inr [OF lt] and_then_def)
  from Suc.prems sint_succ [OF ne] have "sint (cp2_number ?c1) + int k \<le> 2147483647" by simp
  from Suc.IH [OF this, of ?s1] step show ?case
    by (auto simp: and_then_def)
qed

lemma mutable_capture_demo_out:
  "map_sum id (\<lambda>s. (cout s, vars s Number2)) (mutable_capture_demo v (assign Number 123 st))
     = Inr (cout st @ ''123 Captured '' @ endl @ ''124 Captured '' @ endl @ ''125 Captured '' @ endl
             @ ''number2 = '' @ show_cint v @ endl @ endl, Some v)"
  by (simp add: mutable_capture_demo_def make_capt_print2_def capt_print2_call_def store_ops
      Let_def c_succ_def INT_MAX_def and_then_def put_def put_int_def)
     (simp add: out_text)

text \<open>
  C2. Built while \<open>number\<close> holds 123, \<open>capt_print2\<close> called three times writes 123, 124
  and 125 in that order, and the block then writes \<open>number2 = 123\<close>. However many calls
  are made, the store of \<open>main\<close> (so \<open>number\<close> and \<open>number2\<close>) is what it was before
  them; and any number of calls that keeps the copy within \<open>int\<close> does complete, leaving the
  copy at 123 plus that number.
\<close>

theorem capt_print2_counts_up:
  "map_sum id (\<lambda>s. (cout s, vars s Number2)) (mutable_capture_demo 123 (assign Number 123 st))
     = Inr (cout st @ ''123 Captured '' @ endl @ ''124 Captured '' @ endl @ ''125 Captured '' @ endl
             @ ''number2 = 123'' @ endl @ endl, Some 123)
   \<and> (repeat k capt_print2_call (c, s) = Inr (c', s') \<longrightarrow> vars s' = vars s)
   \<and> (k \<le> 2147483524 \<longrightarrow>
        (\<exists>c' s'. repeat k capt_print2_call (\<lparr>cp2_number = 123\<rparr>, s) = Inr (c', s')
                 \<and> vars s' = vars s \<and> cp2_number c' = 123 + of_nat k))"
proof (intro conjI impI)
  show "map_sum id (\<lambda>s. (cout s, vars s Number2)) (mutable_capture_demo 123 (assign Number 123 st))
     = Inr (cout st @ ''123 Captured '' @ endl @ ''124 Captured '' @ endl @ ''125 Captured '' @ endl
             @ ''number2 = 123'' @ endl @ endl, Some 123)"
    by (simp add: mutable_capture_demo_out) (simp add: out_text)
next
  assume "repeat k capt_print2_call (c, s) = Inr (c', s')"
  then show "vars s' = vars s" by (simp add: repeat_capt_print2_frame)
next
  assume "k \<le> 2147483524"
  then have "sint (cp2_number \<lparr>cp2_number = 123\<rparr>) + int k \<le> 2147483647" by simp
  from repeat_capt_print2_total [OF this, of s]
  obtain c' s' where r: "repeat k capt_print2_call (\<lparr>cp2_number = 123\<rparr>, s) = Inr (c', s')"
    "cp2_number c' = 123 + of_nat k" by auto
  with repeat_capt_print2_frame [OF r(1)]
  show "\<exists>c' s'. repeat k capt_print2_call (\<lparr>cp2_number = 123\<rparr>, s) = Inr (c', s')
                 \<and> vars s' = vars s \<and> cp2_number c' = 123 + of_nat k" by auto
qed

theorem capt_print2_counts_up_witness:
  "repeat 3 capt_print2_call (\<lparr>cp2_number = 123\<rparr>, assign Number2 123 (assign Number 123 init_state))
     = Inr (\<lparr>cp2_number = 126\<rparr>,
            put (''123 Captured '' @ endl @ ''124 Captured '' @ endl @ ''125 Captured '' @ endl)
              (assign Number2 123 (assign Number 123 init_state)))
   \<and> (3 :: nat) \<le> 2147483524
   \<and> vars (put (''123 Captured '' @ endl @ ''124 Captured '' @ endl @ ''125 Captured '' @ endl)
              (assign Number2 123 (assign Number 123 init_state))) Number2 = Some 123"
proof -
  let ?s0 = "assign Number2 123 (assign Number 123 init_state)"
  let ?s3 = "put (''123 Captured '' @ endl @ ''124 Captured '' @ endl @ ''125 Captured '' @ endl) ?s0"
  have run: "repeat 3 capt_print2_call (\<lparr>cp2_number = 123\<rparr>, ?s0) = Inr (\<lparr>cp2_number = 126\<rparr>, ?s3)"
    by (simp add: numeral_3_eq_3 capt_print2_call_def c_succ_def INT_MAX_def and_then_def put_def put_int_def)
       (simp add: out_text)
  from capt_print2_counts_up [of init_state 3 "\<lparr>cp2_number = 123\<rparr>" ?s0 "\<lparr>cp2_number = 126\<rparr>" ?s3] run
  have "vars ?s3 = vars ?s0" by simp
  then have "vars ?s3 Number2 = Some 123" by (simp add: assign_def)
  with run show ?thesis by simp
qed

text \<open>
  C10. \<open>capt_print2\<close> copies \<open>number\<close>, not \<open>number2\<close>: whatever value \<open>v\<close> initialises
  \<open>number2\<close>, the three calls write 123, 124 and 125 and the report that follows writes
  exactly \<open>v\<close>, which \<open>number2\<close> still holds; and the copy made is the value of \<open>number\<close>
  whatever \<open>number2\<close> is.
\<close>

theorem capt_print2_ignores_number2:
  "map_sum id (\<lambda>s. (cout s, vars s Number2)) (mutable_capture_demo v (assign Number 123 st))
     = Inr (cout st @ ''123 Captured '' @ endl @ ''124 Captured '' @ endl @ ''125 Captured '' @ endl
             @ ''number2 = '' @ show_cint v @ endl @ endl, Some v)
   \<and> make_capt_print2 (assign Number2 v (assign Number w st)) = Inr \<lparr>cp2_number = w\<rparr>"
  by (simp add: mutable_capture_demo_out) (simp add: make_capt_print2_def store_ops and_then_def)

section \<open>Capture by reference: properties\<close>

lemma capt_print3_call_assign:
  "v \<noteq> INT_MAX \<Longrightarrow>
     capt_print3_call make_capt_print3 (assign Number3 v s)
       = Inr (put ('' Captured '' @ endl) (put_int v (assign Number3 (v + 1) s)))"
  by (simp add: capt_print3_call_def make_capt_print3_def store_ops c_succ_def and_then_def)

lemma reference_capture_demo_out:
  "map_sum id (\<lambda>s. (cout s, vars s Number3)) (reference_capture_demo st)
     = Inr (cout st @ ''123 Captured '' @ endl @ ''124 Captured '' @ endl @ ''125 Captured '' @ endl
             @ ''number3 = 126'' @ endl @ ''456 Captured '' @ endl @ ''number3 = 457'' @ endl @ endl,
            Some 457)"
  by (simp add: reference_capture_demo_def capt_print3_call_def make_capt_print3_def report_number3_def
        store_ops Let_def c_succ_def INT_MAX_def and_then_def put_def put_int_def)
     (simp add: out_text)

lemma three_calls_capt_print3:
  "map_sum id (\<lambda>s. (cout s, vars s Number3))
       (repeat 3 (capt_print3_call make_capt_print3) (assign Number3 123 st))
     = Inr (cout st @ ''123 Captured '' @ endl @ ''124 Captured '' @ endl @ ''125 Captured '' @ endl,
            Some 126)"
  by (simp add: numeral_3_eq_3 capt_print3_call_def make_capt_print3_def
        store_ops c_succ_def INT_MAX_def and_then_def put_def put_int_def)
     (simp add: out_text)

text \<open>
  C3. \<open>capt_print3\<close> reads and increments \<open>number3\<close> itself: three calls write 123, 124
  and 125 and leave 126 in \<open>number3\<close>; the whole block writes these, \<open>number3 = 126\<close>,
  then after \<open>number3 = 456\<close> the line \<open>456 Captured\<close> and \<open>number3 = 457\<close>. In general
  a call that follows an assignment of any \<open>v\<close> below \<open>INT_MAX\<close> to \<open>number3\<close> writes
  \<open>v\<close> and leaves \<open>v + 1\<close> in \<open>number3\<close>.
\<close>

theorem capt_print3_shares_number3:
  "map_sum id (\<lambda>s. (cout s, vars s Number3))
       (repeat 3 (capt_print3_call make_capt_print3) (assign Number3 123 st))
     = Inr (cout st @ ''123 Captured '' @ endl @ ''124 Captured '' @ endl @ ''125 Captured '' @ endl,
            Some 126)
   \<and> map_sum id (\<lambda>s. (cout s, vars s Number3)) (reference_capture_demo st)
     = Inr (cout st @ ''123 Captured '' @ endl @ ''124 Captured '' @ endl @ ''125 Captured '' @ endl
             @ ''number3 = 126'' @ endl @ ''456 Captured '' @ endl @ ''number3 = 457'' @ endl @ endl,
            Some 457)
   \<and> (v \<noteq> INT_MAX \<longrightarrow>
        map_sum id (\<lambda>s'. (cout s', vars s' Number3))
            (capt_print3_call make_capt_print3 (assign Number3 v s))
          = Inr (cout s @ show_cint v @ '' Captured '' @ endl, Some (v + 1)))"
  by (simp add: three_calls_capt_print3 reference_capture_demo_out capt_print3_call_assign)
     (simp add: put_def put_int_def assign_def)

theorem capt_print3_shares_number3_witness:
  "(456 :: cint) \<noteq> INT_MAX
   \<and> map_sum id (\<lambda>s'. (cout s', vars s' Number3))
        (capt_print3_call make_capt_print3 (assign Number3 456 init_state))
      = Inr (''456 Captured '' @ endl, Some 457)"
  using capt_print3_shares_number3 [of init_state 456 init_state]
  by (simp add: INT_MAX_def init_state_def out_text)

section \<open>Capture by value: properties\<close>

text \<open>
  C7. \<open>capt_print\<close> built while \<open>number\<close> holds \<open>v\<close> carries the copy \<open>v\<close>, and a call
  writes \<open>v Captured\<close> in every later state \<open>s'\<close>, whatever the store then holds. In the
  block of \<open>main\<close>, whichever variable \<open>x\<close> is assigned whichever value \<open>w\<close> after the
  construction, the call writes \<open>123 Captured\<close>: two runs differing only in that assignment
  write the same text.
\<close>

theorem capt_print_keeps_snapshot:
  "make_capt_print (assign Number v s) = Inr \<lparr>cp_number = v\<rparr>
   \<and> cout (capt_print_call \<lparr>cp_number = v\<rparr> s') = cout s' @ show_cint v @ '' Captured '' @ endl
   \<and> map_sum id cout (value_capture_demo x w st) = Inr (cout st @ ''123 Captured '' @ endl @ endl)
   \<and> map_sum id cout (value_capture_demo x w st) = map_sum id cout (value_capture_demo x' w' st)"
proof -
  have a: "make_capt_print (assign Number v s) = Inr \<lparr>cp_number = v\<rparr>" for v s
    by (simp add: make_capt_print_def store_ops and_then_def)
  have b: "cout (capt_print_call \<lparr>cp_number = v\<rparr> s') = cout s' @ show_cint v @ '' Captured '' @ endl"
    by (simp add: capt_print_call_def put_def put_int_def)
  have c: "map_sum id cout (value_capture_demo x w st) = Inr (cout st @ ''123 Captured '' @ endl @ endl)"
    for x w
    by (simp add: value_capture_demo_def a Let_def and_then_def)
       (simp add: capt_print_call_def put_def put_int_def assign_def out_text)
  from a b c show ?thesis by simp
qed

section \<open>Closures stored in variables: properties\<close>

lemma fold_println_polite:
  "fold (\<lambda>s. println (polite s)) ss st = st\<lparr>cout := cout st @ concat (map (\<lambda>s. s @ '' SIR '' @ endl) ss)\<rparr>"
  by (induction ss arbitrary: st) (simp_all add: println_def polite_def put_def)

text \<open>
  C9. \<open>polite\<close> returns its argument followed by \<open>" SIR "\<close>, \<open>println\<close> writes its
  argument and a newline, and \<open>println (polite s)\<close> writes \<open>s SIR\<close> as a line. Called any
  number of times, on a list \<open>ss\<close> of arguments, they write one such line per argument in
  order, each depending on its own argument only. The block of \<open>main\<close> writes the lines
  \<open>Ben SIR\<close> and \<open>Bingshiue SIR\<close>.
\<close>

theorem println_polite_compose:
  "polite s = s @ '' SIR ''
   \<and> println t st = st\<lparr>cout := cout st @ t @ endl\<rparr>
   \<and> println (polite s) st = st\<lparr>cout := cout st @ s @ '' SIR '' @ endl\<rparr>
   \<and> fold (\<lambda>s. println (polite s)) ss st
       = st\<lparr>cout := cout st @ concat (map (\<lambda>s. s @ '' SIR '' @ endl) ss)\<rparr>
   \<and> stored_closure_demo st = st\<lparr>cout := cout st @ ''Ben SIR '' @ endl @ ''Bingshiue SIR '' @ endl\<rparr>"
  by (simp add: fold_println_polite) (simp add: stored_closure_demo_def println_def polite_def put_def)

section \<open>The container \<open>numbers\<close>: properties\<close>

lemma data_fold_add: "data (fold add xs c) = data c @ xs"
  by (induction xs arbitrary: c) (simp_all add: add_def)

lemma for_each_print_one:
  "for_each xs (print_all_lambda shw this) st = Inr (st\<lparr>cout := cout st @ concat (map (\<lambda>x. shw x @ '' '') xs)\<rparr>)"
  by (induction xs arbitrary: st) (simp_all add: print_all_lambda_def print_one_def put_def)

text \<open>
  C5. After any sequence \<open>xs\<close> of \<open>add\<close> calls on a new container, \<open>data\<close> is exactly
  \<open>xs\<close>, each \<open>add\<close> appending at the end; and \<open>print_all\<close> writes every stored element
  once, in insertion order, each followed by a space. The block of \<open>main\<close> writes \<open>1 2 3\<close>.
\<close>

theorem numbers_keep_insertion_order:
  "data (fold add xs numbers_new) = xs
   \<and> data (add x c) = data c @ [x]
   \<and> print_all shw (fold add xs numbers_new) st
       = Inr (st\<lparr>cout := cout st @ concat (map (\<lambda>x. shw x @ '' '') xs)\<rparr>)
   \<and> map_sum id cout (container_demo st) = Inr (cout st @ ''1 2 3 '' @ endl)"
proof -
  have a: "data (fold add xs numbers_new) = xs"
    by (simp add: data_fold_add numbers_new_def)
  have b: "data (add x c) = data c @ [x]" by (simp add: add_def)
  have c: "print_all shw (fold add xs numbers_new) st
       = Inr (st\<lparr>cout := cout st @ concat (map (\<lambda>x. shw x @ '' '') xs)\<rparr>)"
    by (simp add: print_all_def a for_each_print_one)
  have d: "map_sum id cout (container_demo st) = Inr (cout st @ ''1 2 3 '' @ endl)"
    by (simp add: container_demo_def print_all_def add_def numbers_new_def for_each_print_one
          Let_def and_then_def put_def)
       (simp add: out_text)
  from a b c d show ?thesis by simp
qed

section \<open>Capture of several variables: properties\<close>

lemma count_less_call_hit:
  "c_less x t \<Longrightarrow> vars st Count = Some c0 \<Longrightarrow> c0 \<noteq> INT_MAX \<Longrightarrow>
     count_less_call \<lparr>cl_count = Count, cl_target = t\<rparr> x st = Inr (assign Count (c0 + 1) st)"
  by (simp add: count_less_call_def rd_def c_succ_def and_then_def)

lemma count_less_call_miss:
  "\<not> c_less x t \<Longrightarrow> count_less_call \<lparr>cl_count = Count, cl_target = t\<rparr> x st = Inr st"
  by (simp add: count_less_call_def)

lemma assign_same: "vars st x = Some v \<Longrightarrow> assign x v st = st"
  by (simp add: assign_def fun_upd_idem)

lemma assign_assign: "assign x v (assign x w st) = assign x v st"
  by (simp add: assign_def)

lemma for_each_count_less:
  "vars st Count = Some c0 \<Longrightarrow>
   sint c0 + int (length (filter (\<lambda>x. c_less x t) xs)) \<le> 2147483647 \<Longrightarrow>
   for_each xs (count_less_call \<lparr>cl_count = Count, cl_target = t\<rparr>) st
     = Inr (assign Count (c0 + of_nat (length (filter (\<lambda>x. c_less x t) xs))) st)"
proof (induction xs arbitrary: st c0)
  case Nil
  then show ?case by (simp add: assign_same)
next
  case (Cons x xs)
  show ?case
  proof (cases "c_less x t")
    case True
    with Cons.prems have lt: "sint c0 < 2147483647" by simp
    then have ne: "c0 \<noteq> INT_MAX" by (auto simp: sint_INT_MAX)
    let ?st1 = "assign Count (c0 + 1) st"
    have v1: "vars ?st1 Count = Some (c0 + 1)" by (simp add: assign_def)
    from Cons.prems True sint_succ [OF ne]
    have b1: "sint (c0 + 1) + int (length (filter (\<lambda>x. c_less x t) xs)) \<le> 2147483647" by simp
    from Cons.IH [OF v1 b1] count_less_call_hit [OF True Cons.prems(1) ne]
    show ?thesis using True by (simp add: assign_assign add.assoc)
  next
    case False
    with Cons.prems Cons.IH [of st c0] count_less_call_miss [OF False, of st]
    show ?thesis by simp
  qed
qed

lemma count_less_call_step:
  "count_less_call c x s = Inr s' \<Longrightarrow> vars s (cl_count c) = Some a \<Longrightarrow>
     vars s' (cl_count c) = Some (if c_less x (cl_target c) then a + 1 else a)"
  by (auto simp: count_less_call_def rd_def c_succ_def and_then_def assign_def split: if_splits)

lemma filter_data_init: "filter (\<lambda>x. c_less x 5) data_init = [1, 3, 2, 4]"
  by (simp add: data_init_def c_less_def)

lemma count_demo_out:
  "map_sum id (\<lambda>s. (cout s, vars s Count)) (count_demo st)
     = Inr (cout st @ ''4 Numbers Less Than 5'' @ endl @ endl, Some 4)"
proof -
  let ?st1 = "assign Count 0 (assign Target 5 st)"
  have mk: "make_count_less ?st1 = Inr \<lparr>cl_count = Count, cl_target = 5\<rparr>"
    by (simp add: make_count_less_def store_ops and_then_def)
  have v: "vars (assign Count 0 ?st1) Count = Some 0" by (simp add: assign_def)
  have "for_each data_init (count_less_call \<lparr>cl_count = Count, cl_target = 5\<rparr>) (assign Count 0 ?st1)
          = Inr (assign Count 4 (assign Count 0 ?st1))"
    using for_each_count_less [OF v, of 5 data_init] by (simp add: filter_data_init)
  then show ?thesis
    by (simp add: count_demo_def mk Let_def and_then_def)
       (simp add: store_ops put_def put_int_def out_text)
qed

text \<open>
  C6, as amended. Applied to every element of a sequence, \<open>count_less\<close> adds to \<open>count\<close>
  the number of elements below the captured threshold (as long as the sum is an \<open>int\<close>): a
  call adds one when its argument is below the threshold and leaves \<open>count\<close> as it is
  otherwise. Of \<open>{1,3,5,7,2,4,6,8}\<close> the elements below 5 are 1, 3, 2 and 4, so the counter
  ends at 4 and the block writes \<open>4 Numbers Less Than 5\<close>.
\<close>

theorem count_less_counts:
  "(vars st Count = Some c0 \<and> sint c0 + int (length (filter (\<lambda>x. c_less x t) xs)) \<le> 2147483647 \<longrightarrow>
      for_each xs (count_less_call \<lparr>cl_count = Count, cl_target = t\<rparr>) st
        = Inr (assign Count (c0 + of_nat (length (filter (\<lambda>x. c_less x t) xs))) st))
   \<and> (count_less_call c x s = Inr s' \<and> vars s (cl_count c) = Some a \<longrightarrow>
        vars s' (cl_count c) = Some (if c_less x (cl_target c) then a + 1 else a))
   \<and> filter (\<lambda>x. c_less x 5) data_init = [1, 3, 2, 4]
   \<and> map_sum id (\<lambda>s. (cout s, vars s Count)) (count_demo s0)
       = Inr (cout s0 @ ''4 Numbers Less Than 5'' @ endl @ endl, Some 4)"
  using for_each_count_less [of st c0 t xs] count_less_call_step [of c x s s' a]
  by (simp add: filter_data_init count_demo_out)

theorem count_less_counts_witness:
  "vars (assign Count 0 (assign Target 5 init_state)) Count = Some 0
   \<and> sint (0 :: cint) + int (length (filter (\<lambda>x. c_less x 5) data_init)) \<le> 2147483647
   \<and> for_each data_init (count_less_call \<lparr>cl_count = Count, cl_target = 5\<rparr>)
        (assign Count 0 (assign Target 5 init_state))
      = Inr (assign Count 4 (assign Target 5 init_state))
   \<and> count_less_call \<lparr>cl_count = Count, cl_target = 5\<rparr> 3 (assign Count 1 init_state)
      = Inr (assign Count 2 init_state)
   \<and> vars (assign Count 2 init_state) Count = Some 2"
proof -
  let ?st = "assign Count 0 (assign Target 5 init_state)"
  have step: "count_less_call \<lparr>cl_count = Count, cl_target = 5\<rparr> 3 (assign Count 1 init_state)
      = Inr (assign Count 2 init_state)"
    by (simp add: count_less_call_def c_less_def rd_def c_succ_def INT_MAX_def and_then_def assign_def)
  have v: "vars (assign Count 1 init_state) (cl_count \<lparr>cl_count = Count, cl_target = 5\<rparr>) = Some 1"
    by (simp add: assign_def)
  from count_less_counts [of ?st 0 5 data_init "\<lparr>cl_count = Count, cl_target = 5\<rparr>" 3
      "assign Count 1 init_state" "assign Count 2 init_state" 1 init_state] step v
  show ?thesis
    by (simp add: filter_data_init assign_assign c_less_def) (simp add: assign_def)
qed

text \<open>C6 as stated fails: after the traversal the counter is not 3.\<close>

theorem count_is_not_three_counterexample:
  "map_sum id (\<lambda>s. vars s Count) (count_demo init_state) \<noteq> Inr (Some 3)"
proof -
  have "map_sum id (\<lambda>s. vars s Count) (count_demo init_state)
          = map_sum id snd (map_sum id (\<lambda>s. (cout s, vars s Count)) (count_demo init_state))"
    by (cases "count_demo init_state") simp_all
  then show ?thesis by (simp add: count_demo_out)
qed

section \<open>Comparator sort: properties\<close>

lemma sint_neg:
  fixes x :: cint
  assumes "x \<noteq> INT_MIN"
  shows "sint (- x) = - sint x"
proof -
  from assms have "sint x \<noteq> - 2147483648"
    using word_eq_iff_signed [of x INT_MIN, where ?'a = int] by (simp add: sint_INT_MIN)
  with sint_ge [of x] have "- sint x < 2 ^ 31" by simp
  moreover from sint_lt [of x] have "- (2 ^ 31) \<le> - sint x" by simp
  ultimately show ?thesis
    by (simp add: sint_word_ariths signed_take_bit_int_eq_self)
qed

lemma abs_less_lambda_defined:
  assumes "x \<noteq> INT_MIN" and "y \<noteq> INT_MIN"
  shows "abs_less_lambda x y = Inr (\<bar>sint x\<bar> < \<bar>sint y\<bar>)"
  using assms sint_neg [OF assms(1)] sint_neg [OF assms(2)]
  by (auto simp: abs_less_lambda_def c_less_def c_neg_def and_then_def)

lemma abs_less_lambda_fault:
  "x = INT_MIN \<or> y = INT_MIN \<Longrightarrow> abs_less_lambda x y = Inl SignedOverflow"
  by (auto simp: abs_less_lambda_def c_less_def c_neg_def and_then_def sint_INT_MIN)

lemma abs_less_lambda_False:
  assumes "abs_less_lambda b a = Inr False"
  shows "\<bar>sint a\<bar> \<le> \<bar>sint b\<bar>"
proof (cases "b = INT_MIN \<or> a = INT_MIN")
  case True
  from abs_less_lambda_fault [OF this] assms show ?thesis by simp
next
  case False
  with abs_less_lambda_defined [of b a] assms show ?thesis by simp
qed

lemma abs_less_eq_lambda: "abs_less x y = abs_less_lambda x y"
  by (simp add: abs_less_def abs_less_lambda_def abs_key_def)

lemma std_sort_post_sorted:
  assumes "std_sort_post abs_less_lambda xs ys"
  shows "mset ys = mset xs \<and> sorted (map (\<lambda>x. \<bar>sint x\<bar>) ys)"
proof -
  from assms have "sorted_wrt (\<lambda>a b. abs_less_lambda b a = Inr False) ys"
    by (simp add: std_sort_post_def)
  then have "sorted_wrt (\<lambda>a b. \<bar>sint a\<bar> \<le> \<bar>sint b\<bar>) ys"
    by (rule sorted_wrt_mono_rel [rotated]) (simp add: abs_less_lambda_False)
  with assms show ?thesis by (simp add: std_sort_post_def sorted_map)
qed

lemma mset_ar_sorted: "mset ar_sorted = mset ar_init"
  by (simp add: ar_init_def)

lemma keys_ar_sorted: "map (\<lambda>x. \<bar>sint x\<bar>) ar_sorted = [0, 1, 2, 3, 4, 5, 6, 7, 8, 9]"
  by simp

lemma ar_sorted_post: "std_sort_post abs_less_lambda ar_init ar_sorted"
  by (simp add: std_sort_post_def ar_init_def abs_less_lambda_def c_less_def c_neg_def
      INT_MIN_def and_then_def)

lemma inj_on_keys_ar: "inj_on (\<lambda>x :: cint. \<bar>sint x\<bar>) (set ar_sorted)"
  by simp

lemma sorted_ar_unique:
  assumes "std_sort_post abs_less_lambda ar_init ys"
  shows "ys = ar_sorted"
proof -
  let ?k = "\<lambda>x :: cint. \<bar>sint x\<bar>"
  from std_sort_post_sorted [OF assms] have so: "sorted (map ?k ys)"
    by simp
  from std_sort_post_sorted [OF assms] have ms: "mset ys = mset ar_sorted"
    by (simp add: ar_init_def)
  from ms have st: "set ys = set ar_sorted" by (rule mset_eq_setD)
  from ms have "mset (map ?k ys) = mset (map ?k ar_sorted)" by simp
  then have d: "distinct (map ?k ys)" and s2: "set (map ?k ys) = set (map ?k ar_sorted)"
    using mset_eq_imp_distinct_iff [of "map ?k ys" "map ?k ar_sorted"]
      mset_eq_setD [of "map ?k ys" "map ?k ar_sorted"]
    by (simp_all add: keys_ar_sorted)
  have "map ?k ys = map ?k ar_sorted"
    by (rule sorted_distinct_set_unique [OF so d _ _ s2]) (simp_all add: keys_ar_sorted)
  moreover have "inj_on ?k (set ys \<union> set ar_sorted)"
    using inj_on_keys_ar by (simp add: st)
  ultimately show ?thesis by (simp only: inj_on_map_eq_map)
qed

lemma std_sort_ar: "std_sort abs_less_lambda ar_init = Inr ar_sorted"
  by (simp add: ar_init_def abs_less_lambda_def c_less_def c_neg_def INT_MIN_def and_then_def)

lemma sort_demo_out:
  "map_sum id (\<lambda>s. (ar s, cout s)) (sort_demo (st\<lparr>ar := ar_init\<rparr>))
     = Inr (ar_sorted, cout st @ ''0 1 -2 3 -4 5 -6 7 -8 9 '' @ endl)"
  by (simp add: sort_demo_def std_sort_ar and_then_def)
     (simp add: print_elem_def put_def put_int_def out_text)

lemma ties_unordered:
  "x \<noteq> INT_MIN \<Longrightarrow> abs_less_lambda x (- x) = Inr False \<and> abs_less_lambda (- x) x = Inr False"
proof -
  assume x: "x \<noteq> INT_MIN"
  have nx: "- x \<noteq> INT_MIN"
  proof
    assume "- x = INT_MIN"
    then have "x = - INT_MIN" by (metis minus_minus)
    with x show False by (simp add: INT_MIN_def)
  qed
  from x nx sint_neg [OF x] show ?thesis
    by (simp add: abs_less_lambda_defined)
qed

lemma either_order_acceptable:
  "std_sort_post abs_less_lambda [1, - 1] [1, - 1] \<and> std_sort_post abs_less_lambda [1, - 1] [- 1, 1]"
  by (simp add: std_sort_post_def abs_less_lambda_def c_less_def c_neg_def INT_MIN_def and_then_def)

lemma insert_by_abs:
  assumes "x \<noteq> INT_MIN" and "INT_MIN \<notin> set ys" and "sorted (map (\<lambda>x. \<bar>sint x\<bar>) ys)"
  shows "\<exists>zs. insert_by abs_less_lambda x ys = Inr zs \<and> mset zs = add_mset x (mset ys)
              \<and> sorted (map (\<lambda>x. \<bar>sint x\<bar>) zs)"
  using assms(2,3)
proof (induction ys)
  case Nil
  then show ?case by simp
next
  case (Cons y ys)
  from Cons.prems have y: "y \<noteq> INT_MIN" by auto
  note cmp = abs_less_lambda_defined [OF assms(1) y]
  show ?case
  proof (cases "\<bar>sint x\<bar> < \<bar>sint y\<bar>")
    case True
    with cmp Cons.prems show ?thesis by auto
  next
    case False
    from Cons.prems have "INT_MIN \<notin> set ys" "sorted (map (\<lambda>x. \<bar>sint x\<bar>) ys)" by auto
    from Cons.IH [OF this] obtain zs where
      zs: "insert_by abs_less_lambda x ys = Inr zs" "mset zs = add_mset x (mset ys)"
          "sorted (map (\<lambda>x. \<bar>sint x\<bar>) zs)" by blast
    from zs(2) have "set zs = insert x (set ys)"
      by (metis set_mset_mset set_mset_add_mset_insert)
    with Cons.prems False zs(3) have "sorted (map (\<lambda>x. \<bar>sint x\<bar>) (y # zs))" by auto
    with cmp False zs show ?thesis by simp
  qed
qed

lemma std_sort_abs:
  "INT_MIN \<notin> set xs \<Longrightarrow>
     \<exists>ys. std_sort abs_less_lambda xs = Inr ys \<and> mset ys = mset xs \<and> sorted (map (\<lambda>x. \<bar>sint x\<bar>) ys)"
proof (induction xs)
  case Nil
  then show ?case by simp
next
  case (Cons x xs)
  then obtain ys where ys: "std_sort abs_less_lambda xs = Inr ys" "mset ys = mset xs"
      "sorted (map (\<lambda>x. \<bar>sint x\<bar>) ys)" by auto
  from ys(2) have "set ys = set xs" by (rule mset_eq_setD)
  with Cons.prems have "x \<noteq> INT_MIN" "INT_MIN \<notin> set ys" by auto
  from insert_by_abs [OF this ys(3)] ys show ?case
    by (auto simp: and_then_def)
qed

lemma sorted_abs_post:
  assumes "INT_MIN \<notin> set ys" and "sorted (map (\<lambda>x. \<bar>sint x\<bar>) ys)"
  shows "sorted_wrt (\<lambda>a b. abs_less_lambda b a = Inr False) ys"
proof -
  from assms(2) have "sorted_wrt (\<lambda>a b. \<bar>sint a\<bar> \<le> \<bar>sint b\<bar>) ys"
    by (simp add: sorted_map)
  then show ?thesis
  proof (rule sorted_wrt_mono_rel [rotated])
    fix a b
    assume "a \<in> set ys" "b \<in> set ys" "\<bar>sint a\<bar> \<le> \<bar>sint b\<bar>"
    with assms(1) abs_less_lambda_defined [of b a] show "abs_less_lambda b a = Inr False"
      by auto
  qed
qed

lemma std_sort_conforms:
  assumes "INT_MIN \<notin> set xs"
  shows "\<exists>ys. std_sort abs_less_lambda xs = Inr ys \<and> std_sort_post abs_less_lambda xs ys"
proof -
  from std_sort_abs [OF assms] obtain ys where ys: "std_sort abs_less_lambda xs = Inr ys"
    "mset ys = mset xs" "sorted (map (\<lambda>x. \<bar>sint x\<bar>) ys)" by blast
  from ys(2) assms have "INT_MIN \<notin> set ys" by (metis mset_eq_setD)
  from sorted_abs_post [OF this ys(3)] ys show ?thesis
    by (simp add: std_sort_post_def)
qed

text \<open>
  C4. Whatever \<open>std::sort\<close> returns for the comparator by absolute value is a permutation
  of its input with non-decreasing absolute values. For \<open>{9,7,5,3,1,-2,-4,-6,-8,0}\<close> the
  result is \<open>{0,1,-2,3,-4,5,-6,7,-8,9}\<close>, which is acceptable (and, the magnitudes being
  distinct, the only acceptable one), is what is left in \<open>ar\<close>, and is what the block
  writes. A value and its negation compare false in both orders, in the closure as in the
  function object \<open>abs_less\<close>, so that for \<open>{1,-1}\<close> both orders are acceptable results.
\<close>

theorem sort_by_absolute_value:
  "(std_sort_post abs_less_lambda xs ys \<longrightarrow> mset ys = mset xs \<and> sorted (map (\<lambda>x. \<bar>sint x\<bar>) ys))
   \<and> (std_sort_post abs_less_lambda ar_init zs \<longrightarrow> zs = [0, 1, - 2, 3, - 4, 5, - 6, 7, - 8, 9])
   \<and> std_sort_post abs_less_lambda ar_init [0, 1, - 2, 3, - 4, 5, - 6, 7, - 8, 9]
   \<and> map_sum id (\<lambda>s. (ar s, cout s)) (sort_demo (st\<lparr>ar := ar_init\<rparr>))
       = Inr ([0, 1, - 2, 3, - 4, 5, - 6, 7, - 8, 9], cout st @ ''0 1 -2 3 -4 5 -6 7 -8 9 '' @ endl)
   \<and> abs_less x y = abs_less_lambda x y
   \<and> (x \<noteq> INT_MIN \<longrightarrow> abs_less_lambda x (- x) = Inr False \<and> abs_less_lambda (- x) x = Inr False)
   \<and> std_sort_post abs_less_lambda [1, - 1] [1, - 1]
   \<and> std_sort_post abs_less_lambda [1, - 1] [- 1, 1]"
  using std_sort_post_sorted [of xs ys] sorted_ar_unique [of zs] ar_sorted_post sort_demo_out [of st]
    abs_less_eq_lambda [of x y] ties_unordered [of x] either_order_acceptable
  by blast

theorem sort_by_absolute_value_witness:
  "std_sort_post abs_less_lambda ar_init [0, 1, - 2, 3, - 4, 5, - 6, 7, - 8, 9]
   \<and> mset [0, 1, - 2, 3, - 4, 5, - 6, 7, - 8, 9] = mset ar_init
   \<and> sorted (map (\<lambda>x :: cint. \<bar>sint x\<bar>) [0, 1, - 2, 3, - 4, 5, - 6, 7, - 8, 9])
   \<and> (2 :: cint) \<noteq> INT_MIN
   \<and> abs_less_lambda 2 (- 2) = Inr False \<and> abs_less_lambda (- 2) 2 = Inr False"
  using sort_by_absolute_value [of ar_init "[0, 1, - 2, 3, - 4, 5, - 6, 7, - 8, 9]"
      "[0, 1, - 2, 3, - 4, 5, - 6, 7, - 8, 9]" init_state 2 2]
  by (simp add: INT_MIN_def)

section \<open>The output of the program\<close>

lemma main_output:
  "map_sum id cout main =
     Inr (''-4 can be divided by 4'' @ endl @ ''0 1 -2 3 -4 5 -6 7 -8 9 '' @ endl
          @ ''Ben SIR '' @ endl @ ''Bingshiue SIR '' @ endl
          @ ''123 Captured '' @ endl @ endl
          @ ''123 Captured '' @ endl @ ''124 Captured '' @ endl @ ''125 Captured '' @ endl
          @ ''number2 = 123'' @ endl @ endl
          @ ''123 Captured '' @ endl @ ''124 Captured '' @ endl @ ''125 Captured '' @ endl
          @ ''number3 = 126'' @ endl @ ''456 Captured '' @ endl @ ''number3 = 457'' @ endl @ endl
          @ ''4 Numbers Less Than 5'' @ endl @ endl
          @ ''1 2 3 '' @ endl)"
  by code_simp

end
